theory Spec2Isabelle
  imports Complex_Main "HOL-Library.Word"
begin

text \<open>
  A shallow embedding of the Server-Sent Events channel of \<open>sse-channel\<close>: the frame
  formatter (\<open>parseTextData\<close>, \<open>parseMessage\<close>), the history (\<open>send\<close>,
  \<open>sendMissedEvents\<close>), the connection registry (\<open>addClient\<close>, \<open>removeClient\<close>,
  \<open>broadcast\<close>) and the small operations around them. The source holds two versions of
  the channel. The current one (cross-origin check, private sends, removal of a republished
  id, flag \<open>jsonEncode\<close>) is modelled under the source's names; where the older
  \<open>lib/sse-channel.js\<close> (flag \<open>autoSerialize\<close>) differs in a function modelled here,
  its function has the suffix \<open>_lib\<close>. \<open>removeClient\<close>, \<open>broadcast\<close>,
  \<open>sendMissedEvents\<close> and the formatter of a string are the same in both, up to the
  arguments of the events emitted. The constructor and the keep-alive timer are not
  modelled: a state of the channel is any value of the record \<open>channel\<close>.

  A call that can throw returns a value of \<open>error + 'a\<close>, \<open>Inl\<close> the exception: the
  formatter throws on a message that is \<open>null\<close> or \<open>undefined\<close>, on a payload that
  \<open>JSON.stringify\<close> rejects and on a payload that cannot be converted to a string, and
  \<open>send\<close> throws with it. The listeners of the events emitted and the streams written to are
  outside the channel: an exception thrown by a listener is not modelled.
\<close>

section \<open>The JavaScript values the channel handles\<close>

text \<open>
  The channel receives message fields, header values and query parameters as JavaScript
  values. The fields \<open>event\<close>, \<open>retry\<close> and \<open>id\<close> of a message, the header values, the
  query parameters and the resume id are primitive values: \<open>undefined\<close>, \<open>null\<close>,
  booleans, numbers with an integral value (\<open>JNum n\<close> stands for the number \<open>n\<close>, a safe
  integer, whose decimal rendering JavaScript prints in full) and strings. A string is a
  list of code units, each an 8-bit \<open>char\<close>.

  The payload \<open>data\<close> of a message is a primitive value or any other truthy value (an
  object that is no \<open>String\<close> object, an array, a function, a symbol, a big integer,
  a number that is no integer). The formatter only converts such a value with \<open>String\<close>
  and with \<open>JSON.stringify\<close>, so it is given by what these two return on it: \<open>String\<close> returns a text or throws; \<open>JSON.stringify\<close> returns a
  text, returns \<open>undefined\<close> (a function, a symbol) or throws (a circular structure, a
  big integer).
\<close>

datatype jsvalue = JUndefined | JNull | JBool bool | JNum int | JStr string

datatype error = TypeError

datatype stringified = Throws | NoText | Text string

datatype payload = Prim jsvalue | Opaque "error + string" stringified

text \<open>Sequencing of calls that can throw.\<close>

definition and_then :: "error + 'a \<Rightarrow> ('a \<Rightarrow> error + 'b) \<Rightarrow> error + 'b" where
  "and_then r f = (case r of Inl e \<Rightarrow> Inl e | Inr x \<Rightarrow> f x)"

definition returns :: "error + 'a \<Rightarrow> bool" where
  "returns r = (case r of Inl e \<Rightarrow> False | Inr x \<Rightarrow> True)"

abbreviation LF :: char where "LF \<equiv> CHR 0x0A"
abbreviation CR :: char where "CR \<equiv> CHR 0x0D"

text \<open>Truthiness, as tested by \<open>if (v)\<close>, \<open>v || w\<close> and \<open>v && w\<close>.\<close>

fun truthy :: "jsvalue \<Rightarrow> bool" where
  "truthy JUndefined = False"
| "truthy JNull = False"
| "truthy (JBool b) = b"
| "truthy (JNum n) = (n \<noteq> 0)"
| "truthy (JStr s) = (s \<noteq> [])"

definition js_or :: "jsvalue \<Rightarrow> jsvalue \<Rightarrow> jsvalue" where
  "js_or a b = (if truthy a then a else b)"

fun truthy_payload :: "payload \<Rightarrow> bool" where
  "truthy_payload (Prim v) = truthy v"
| "truthy_payload (Opaque s j) = True"

text \<open>\<open>msg.data || ''\<close>.\<close>

definition data_or_empty :: "payload \<Rightarrow> payload" where
  "data_or_empty d = (if truthy_payload d then d else Prim (JStr []))"

text \<open>Decimal rendering of an integral number.\<close>

fun digits :: "int \<Rightarrow> string" where
  "digits n = (if n < 10 then [char_of (48 + n)] else digits (n div 10) @ [char_of (48 + n mod 10)])"

declare digits.simps [simp del]

definition string_of_int :: "int \<Rightarrow> string" where
  "string_of_int n = (if n < 0 then CHR ''-'' # digits (- n) else digits n)"

text \<open>\<open>String(v)\<close>, which is also what \<open>'text' + v\<close> appends for a primitive \<open>v\<close>.\<close>

fun ToString :: "jsvalue \<Rightarrow> string" where
  "ToString JUndefined = ''undefined''"
| "ToString JNull = ''null''"
| "ToString (JBool b) = (if b then ''true'' else ''false'')"
| "ToString (JNum n) = string_of_int n"
| "ToString (JStr s) = s"

fun String_payload :: "payload \<Rightarrow> error + string" where
  "String_payload (Prim v) = Inr (ToString v)"
| "String_payload (Opaque s j) = s"

text \<open>
  \<open>JSON.stringify\<close> on a primitive. A string is quoted: the double quote and the
  backslash get a backslash, the control characters below space become \<open>\b \t \n \f \r\<close> or \<open>\u00XX\<close> (lower-case
  hexadecimal), every other code unit stands for itself. \<open>JSON.stringify(undefined)\<close> is
  the value \<open>undefined\<close>, not a string.
\<close>

definition hexdigit :: "nat \<Rightarrow> char" where
  "hexdigit d = (if d < 10 then char_of (48 + d) else char_of (87 + d))"

definition json_escape_char :: "char \<Rightarrow> string" where
  "json_escape_char c =
     (if c = CHR 0x22 then [CHR 0x5C, CHR 0x22]
      else if c = CHR 0x5C then [CHR 0x5C, CHR 0x5C]
      else if c = CHR 0x08 then [CHR 0x5C, CHR ''b'']
      else if c = CHR 0x0C then [CHR 0x5C, CHR ''f'']
      else if c = LF then [CHR 0x5C, CHR ''n'']
      else if c = CR then [CHR 0x5C, CHR ''r'']
      else if c = CHR 0x09 then [CHR 0x5C, CHR ''t'']
      else if (of_char c :: nat) < 32
        then [CHR 0x5C, CHR ''u'', CHR ''0'', CHR ''0'',
              hexdigit (of_char c div 16), hexdigit (of_char c mod 16)]
      else [c])"

definition json_quote :: "string \<Rightarrow> string" where
  "json_quote s = CHR 0x22 # concat (map json_escape_char s) @ [CHR 0x22]"

fun stringify_primitive :: "jsvalue \<Rightarrow> jsvalue" where
  "stringify_primitive JUndefined = JUndefined"
| "stringify_primitive JNull = JStr ''null''"
| "stringify_primitive (JBool b) = JStr (if b then ''true'' else ''false'')"
| "stringify_primitive (JNum n) = JStr (string_of_int n)"
| "stringify_primitive (JStr s) = JStr (json_quote s)"

fun JSON_stringify :: "payload \<Rightarrow> error + jsvalue" where
  "JSON_stringify (Prim v) = Inr (stringify_primitive v)"
| "JSON_stringify (Opaque s Throws) = Inl TypeError"
| "JSON_stringify (Opaque s NoText) = Inr JUndefined"
| "JSON_stringify (Opaque s (Text t)) = Inr (JStr t)"

section \<open>The frame formatter\<close>

subsection \<open>\<open>parseTextData\<close>\<close>

text \<open>
  \<open>.replace(/(\r\n|\r|\n)/g, '\n')\<close>: scanning from the left, every \<open>\r\n\<close>, else every
  \<open>\r\<close>, else every \<open>\n\<close> is replaced by \<open>\n\<close>.
\<close>

fun replace_newlines :: "string \<Rightarrow> string" where
  "replace_newlines [] = []"
| "replace_newlines [c] = (if c = CR then [LF] else [c])"
| "replace_newlines (c # d # cs) =
     (if c = CR \<and> d = LF then LF # replace_newlines cs
      else if c = CR then LF # replace_newlines (d # cs)
      else c # replace_newlines (d # cs))"

text \<open>\<open>.split(/\n/)\<close>: the pieces between the separators; the empty string gives one empty piece.\<close>

fun split_newline :: "string \<Rightarrow> string list" where
  "split_newline [] = [[]]"
| "split_newline (c # cs) =
     (if c = LF then [] # split_newline cs
      else (case split_newline cs of [] \<Rightarrow> [[c]] | l # ls \<Rightarrow> (c # l) # ls))"

text \<open>The \<open>for\<close> loop over the lines, with its index \<open>i\<close>, its bound \<open>l\<close> and the output so far.\<close>

function parseTextData_loop :: "string list \<Rightarrow> nat \<Rightarrow> nat \<Rightarrow> string \<Rightarrow> string" where
  "parseTextData_loop lines i l output =
     (if i < l
      then parseTextData_loop lines (i + 1) l
             (output @ ''data: '' @ lines ! i @ (if i + 1 = l then [LF, LF] else [LF]))
      else output)"
  by pat_completeness auto
termination
  by (relation "measure (\<lambda>(lines, i, l, output). l - i)") auto

declare parseTextData_loop.simps [simp del]

text \<open>The formatter on a string: both versions of the source run this on a string argument.\<close>

definition parseTextData_string :: "string \<Rightarrow> string" where
  "parseTextData_string text =
     (let data = replace_newlines text;
          lines = split_newline data
      in parseTextData_loop lines 0 (length lines) [])"

text \<open>
  The current version coerces its argument with \<open>String(text)\<close>, which can throw; the
  older \<open>lib/sse-channel.js\<close> calls \<open>text.replace\<close> directly, a \<open>TypeError\<close> on
  anything but a string.
\<close>

definition parseTextData :: "payload \<Rightarrow> error + string" where
  "parseTextData text = and_then (String_payload text) (\<lambda>s. Inr (parseTextData_string s))"

fun parseTextData_lib :: "payload \<Rightarrow> error + string" where
  "parseTextData_lib (Prim (JStr s)) = Inr (parseTextData_string s)"
| "parseTextData_lib _ = Inl TypeError"

subsection \<open>\<open>parseMessage\<close>\<close>

text \<open>
  A message is a string or an object with the optional fields \<open>event\<close>, \<open>retry\<close>,
  \<open>id\<close> and \<open>data\<close>; an absent field reads as \<open>undefined\<close>. Reading \<open>msg.id\<close> off
  a string message gives \<open>undefined\<close> as well. \<open>MNullish\<close> is the message \<open>null\<close> or
  \<open>undefined\<close>: reading a field off it throws, which the formatter does first, so that
  \<open>send\<close> never comes to read its \<open>id\<close>.
\<close>

record msgobj =
  m_event :: jsvalue
  m_retry :: jsvalue
  m_id :: jsvalue
  m_data :: payload

datatype message = MString string | MObject msgobj | MNullish

fun msg_id :: "message \<Rightarrow> jsvalue" where
  "msg_id (MString s) = JUndefined"
| "msg_id (MObject msg) = m_id msg"
| "msg_id MNullish = JUndefined"

text \<open>The current version (\<open>jsonEncode\<close>): the data, defaulted to \<open>''\<close>, is always serialised when the flag is set.\<close>

fun parseMessage :: "message \<Rightarrow> bool \<Rightarrow> error + string" where
  "parseMessage (MString s) jsonEncode = parseTextData (Prim (JStr s))"
| "parseMessage MNullish jsonEncode = Inl TypeError"
| "parseMessage (MObject msg) jsonEncode =
     (let output = [];
          output = (if truthy (m_event msg)
                    then output @ ''event: '' @ ToString (m_event msg) @ [LF] else output);
          output = (if truthy (m_retry msg)
                    then output @ ''retry: '' @ ToString (m_retry msg) @ [LF] else output);
          output = (if truthy (m_id msg)
                    then output @ ''id: '' @ ToString (m_id msg) @ [LF] else output);
          data = data_or_empty (m_data msg)
      in and_then (if jsonEncode then and_then (JSON_stringify data) (\<lambda>v. Inr (Prim v)) else Inr data)
           (\<lambda>data. and_then (parseTextData data) (\<lambda>text. Inr (output @ text))))"

text \<open>
  The older \<open>lib/sse-channel.js\<close> (\<open>autoSerialize\<close>): only a payload that is not a string
  is serialised, and it is \<open>msg.data\<close> itself that is serialised, not the defaulted value.
\<close>

fun isString :: "jsvalue \<Rightarrow> bool" where
  "isString (JStr s) = True"
| "isString _ = False"

fun isString_payload :: "payload \<Rightarrow> bool" where
  "isString_payload (Prim v) = isString v"
| "isString_payload (Opaque s j) = False"

fun parseMessage_lib :: "message \<Rightarrow> bool \<Rightarrow> error + string" where
  "parseMessage_lib (MString s) autoSerialize = parseTextData_lib (Prim (JStr s))"
| "parseMessage_lib MNullish autoSerialize = Inl TypeError"
| "parseMessage_lib (MObject msg) autoSerialize =
     (let output = [];
          output = (if truthy (m_event msg)
                    then output @ ''event: '' @ ToString (m_event msg) @ [LF] else output);
          output = (if truthy (m_retry msg)
                    then output @ ''retry: '' @ ToString (m_retry msg) @ [LF] else output);
          output = (if truthy (m_id msg)
                    then output @ ''id: '' @ ToString (m_id msg) @ [LF] else output);
          data = data_or_empty (m_data msg)
      in and_then (if autoSerialize \<and> \<not> isString_payload (m_data msg)
                   then and_then (JSON_stringify (m_data msg)) (\<lambda>v. Inr (Prim v)) else Inr data)
           (\<lambda>data. and_then (parseTextData_lib data) (\<lambda>text. Inr (output @ text))))"

section \<open>Numbers from values, and the comparisons\<close>

text \<open>
  The result of \<open>ToNumber\<close> is a number value: \<open>NaN\<close>, an infinity, or a finite double,
  held as the rational number it is.
\<close>

datatype jsnumber = NaN | NegInfinity | Finite rat | PosInfinity

definition negate :: "jsnumber \<Rightarrow> jsnumber" where
  "negate x = (case x of NaN \<Rightarrow> NaN | NegInfinity \<Rightarrow> PosInfinity | PosInfinity \<Rightarrow> NegInfinity
               | Finite q \<Rightarrow> Finite (- q))"

subsection \<open>Rounding to a double\<close>

text \<open>
  The number value of a positive mathematical value \<open>q\<close>: with \<open>e\<close> the integer such
  that \<open>2^e \<le> q < 2^(e+1)\<close>, \<open>q\<close> is rounded to the nearest multiple of \<open>2^(e-52)\<close>
  (of \<open>2^-1074\<close> in the subnormal range), to the even one of two nearest: the multiple
  \<open>r * 2^p\<close>. A result of \<open>2^1024\<close> or more, that is with \<open>1024 \<le> \<lfloor>log2 r\<rfloor> + p\<close>,
  is \<open>Infinity\<close>.
\<close>

definition pow2 :: "int \<Rightarrow> rat" where
  "pow2 e = (if 0 \<le> e then of_int (2 ^ nat e) else 1 / of_int (2 ^ nat (- e)))"

definition pow10 :: "int \<Rightarrow> rat" where
  "pow10 e = (if 0 \<le> e then of_int (10 ^ nat e) else 1 / of_int (10 ^ nat (- e)))"

fun log2floor :: "int \<Rightarrow> int" where
  "log2floor n = (if n < 2 then 0 else 1 + log2floor (n div 2))"

declare log2floor.simps [simp del]

definition round_half_even :: "rat \<Rightarrow> int" where
  "round_half_even m =
     (let f = \<lfloor>m\<rfloor>; d = m - of_int f
      in if d < 1 / 2 then f else if 1 / 2 < d then f + 1 else if even f then f else f + 1)"

definition round_double :: "rat \<Rightarrow> jsnumber" where
  "round_double q =
     (if q \<le> 0 then Finite 0
      else
        (let (a, b) = quotient_of q;
             e0 = log2floor a - log2floor b;
             e = (if pow2 e0 \<le> q then e0 else e0 - 1);
             p = max (e - 52) (- 1074);
             r = round_half_even (q / pow2 p)
         in if 1024 \<le> log2floor r + p then PosInfinity else Finite (of_int r * pow2 p)))"

subsection \<open>\<open>ToNumber\<close> on a string\<close>

text \<open>
  Between optional white space: nothing (the number \<open>0\<close>); a binary, octal or hexadecimal
  integer after \<open>0b\<close>, \<open>0o\<close>, \<open>0x\<close>, without a sign; or, after an optional sign,
  \<open>Infinity\<close> or a decimal literal (digits with an optional fraction, or a fraction
  alone, and an optional exponent). Anything else is \<open>NaN\<close>. The white space is the one
  among the code units below 256.
\<close>

definition is_space :: "char \<Rightarrow> bool" where
  "is_space c = (c \<in> set [CHR 0x09, LF, CHR 0x0B, CHR 0x0C, CR, CHR 0x20, CHR 0xA0])"

definition trim :: "string \<Rightarrow> string" where
  "trim s = rev (dropWhile is_space (rev (dropWhile is_space s)))"

definition digit_value :: "char \<Rightarrow> int option" where
  "digit_value c =
     (let n = (of_char c :: int)
      in if 48 \<le> n \<and> n \<le> 57 then Some (n - 48)
         else if 97 \<le> n \<and> n \<le> 102 then Some (n - 87)
         else if 65 \<le> n \<and> n \<le> 70 then Some (n - 55)
         else None)"

definition is_digit :: "int \<Rightarrow> char \<Rightarrow> bool" where
  "is_digit radix c = (case digit_value c of None \<Rightarrow> False | Some d \<Rightarrow> d < radix)"

definition digits_value :: "int \<Rightarrow> string \<Rightarrow> int" where
  "digits_value radix ds =
     foldl (\<lambda>n c. radix * n + (case digit_value c of None \<Rightarrow> 0 | Some d \<Rightarrow> d)) 0 ds"

definition parse_exponent :: "string \<Rightarrow> int option" where
  "parse_exponent r =
     (case r of
        [] \<Rightarrow> Some 0
      | c # t \<Rightarrow>
          if c = CHR ''e'' \<or> c = CHR ''E'' then
            (case t of
               [] \<Rightarrow> None
             | d # u \<Rightarrow>
                 if d = CHR ''+'' \<and> u \<noteq> [] \<and> list_all (is_digit 10) u then Some (digits_value 10 u)
                 else if d = CHR ''-'' \<and> u \<noteq> [] \<and> list_all (is_digit 10) u then Some (- digits_value 10 u)
                 else if list_all (is_digit 10) (d # u) then Some (digits_value 10 (d # u))
                 else None)
          else None)"

definition parse_unsigned_decimal :: "string \<Rightarrow> rat option" where
  "parse_unsigned_decimal s =
     (let ip = takeWhile (is_digit 10) s;
          r1 = dropWhile (is_digit 10) s;
          dot = (r1 \<noteq> [] \<and> hd r1 = CHR ''.'');
          fp = (if dot then takeWhile (is_digit 10) (tl r1) else []);
          r2 = (if dot then dropWhile (is_digit 10) (tl r1) else r1)
      in if ip = [] \<and> fp = [] then None
         else (case parse_exponent r2 of
                 None \<Rightarrow> None
               | Some e \<Rightarrow> Some (of_int (digits_value 10 (ip @ fp)) * pow10 (e - int (length fp)))))"

definition radix_of_prefix :: "string \<Rightarrow> int option" where
  "radix_of_prefix t =
     (case t of
        z # c # ds \<Rightarrow>
          if z \<noteq> CHR ''0'' then None
          else if c = CHR ''x'' \<or> c = CHR ''X'' then Some 16
          else if c = CHR ''o'' \<or> c = CHR ''O'' then Some 8
          else if c = CHR ''b'' \<or> c = CHR ''B'' then Some 2
          else None
      | _ \<Rightarrow> None)"

definition StringToNumber :: "string \<Rightarrow> jsnumber" where
  "StringToNumber s =
     (let t = trim s
      in if t = [] then Finite 0
         else (case radix_of_prefix t of
                 Some radix \<Rightarrow>
                   (let ds = drop 2 t
                    in if ds \<noteq> [] \<and> list_all (is_digit radix) ds
                       then round_double (of_int (digits_value radix ds)) else NaN)
               | None \<Rightarrow>
                   (let neg = (hd t = CHR ''-'');
                        u = (if hd t = CHR ''-'' \<or> hd t = CHR ''+'' then tl t else t);
                        x = (if u = ''Infinity'' then PosInfinity
                             else (case parse_unsigned_decimal u of
                                     None \<Rightarrow> NaN
                                   | Some q \<Rightarrow> round_double q))
                    in if neg then negate x else x)))"

fun ToNumber :: "jsvalue \<Rightarrow> jsnumber" where
  "ToNumber JUndefined = NaN"
| "ToNumber JNull = Finite 0"
| "ToNumber (JBool b) = Finite (if b then 1 else 0)"
| "ToNumber (JNum n) = Finite (of_int n)"
| "ToNumber (JStr s) = StringToNumber s"

text \<open>
  \<open>v | 0\<close>: \<open>NaN\<close> and the infinities give \<open>0\<close>; a finite number is truncated towards
  zero and wrapped to a signed 32-bit integer.
\<close>

definition ToInt32 :: "jsvalue \<Rightarrow> int" where
  "ToInt32 v =
     (case ToNumber v of
        Finite q \<Rightarrow> sint (word_of_int (if q < 0 then - \<lfloor>- q\<rfloor> else \<lfloor>q\<rfloor>) :: 32 word)
      | _ \<Rightarrow> 0)"

subsection \<open>The relational comparison\<close>

text \<open>Strings compare by code units, a proper prefix being smaller.\<close>

fun string_less :: "string \<Rightarrow> string \<Rightarrow> bool" where
  "string_less [] [] = False"
| "string_less [] (y # ys) = True"
| "string_less (x # xs) [] = False"
| "string_less (x # xs) (y # ys) =
     (if (of_char x :: nat) < of_char y then True
      else if (of_char y :: nat) < of_char x then False
      else string_less xs ys)"

text \<open>Numbers: \<open>None\<close> is the answer \<open>undefined\<close> that a \<open>NaN\<close> on either side gives.\<close>

fun number_less :: "jsnumber \<Rightarrow> jsnumber \<Rightarrow> bool option" where
  "number_less NaN y = None"
| "number_less x NaN = None"
| "number_less (Finite a) (Finite b) = Some (a < b)"
| "number_less x NegInfinity = Some False"
| "number_less NegInfinity y = Some True"
| "number_less PosInfinity y = Some False"
| "number_less x PosInfinity = Some True"

text \<open>
  The abstract relational comparison \<open>a < b\<close> on primitive values: two strings compare as
  strings, otherwise both sides are converted to numbers. \<open>a <= b\<close> holds when \<open>b < a\<close>
  is false (not true, and not undefined); \<open>a < b\<close> holds when the comparison is true.
\<close>

fun compare_less :: "jsvalue \<Rightarrow> jsvalue \<Rightarrow> bool option" where
  "compare_less (JStr s) (JStr t) = Some (string_less s t)"
| "compare_less a b = number_less (ToNumber a) (ToNumber b)"

definition js_lesseq :: "jsvalue \<Rightarrow> jsvalue \<Rightarrow> bool" where
  "js_lesseq a b = (compare_less b a = Some False)"

definition js_less :: "jsvalue \<Rightarrow> jsvalue \<Rightarrow> bool" where
  "js_less a b = (compare_less a b = Some True)"

section \<open>The channel\<close>

text \<open>
  A connection is the response object of a client, known by its identity. What the
  channel does to the outside (socket options, writes to a response, ending a response,
  events emitted to the listeners, the call of the caller's callback) is recorded, in the
  order it happens, in the field \<open>effects\<close>. Writes are issued and not awaited.
\<close>

type_synonym conn = nat

record entry =
  e_id :: jsvalue
  e_msg :: string

datatype event =
    Connect conn
  | Disconnect conn
  | Message message "conn list option"

datatype effect =
    SetTimeout conn nat
  | SetNoDelay conn bool
  | SetKeepAlive conn bool
  | WriteHead conn nat "(string \<times> string) list"
  | Write conn string
  | End conn
  | Emit event
  | Callback jsvalue

record channel =
  jsonEncode :: bool
  historySize :: int
  retryTimeout :: jsvalue
  history :: "entry list"
  connections :: "conn list"
  connectionCount :: int
  effects :: "effect list"

subsection \<open>\<open>broadcast\<close>\<close>

text \<open>
  \<open>var i = connections.length; while (i--) { connections[i].write(packet); }\<close>:
  the test reads \<open>i\<close> and then decrements it, so the body runs with
  \<open>length - 1\<close> down to \<open>0\<close>.
\<close>

primrec broadcast_loop :: "conn list \<Rightarrow> nat \<Rightarrow> string \<Rightarrow> effect list \<Rightarrow> effect list" where
  "broadcast_loop conns 0 packet out = out"
| "broadcast_loop conns (Suc i) packet out =
     broadcast_loop conns i packet (out @ [Write (conns ! i) packet])"

definition broadcast :: "conn list \<Rightarrow> string \<Rightarrow> effect list \<Rightarrow> effect list" where
  "broadcast conns packet out = broadcast_loop conns (length conns) packet out"

subsection \<open>\<open>removeClient\<close>, \<open>getConnectionCount\<close>, \<open>ping\<close>, \<open>retry\<close>, \<open>close\<close>\<close>

text \<open>\<open>_.pull(array, value)\<close> removes every element equal to the value, in place.\<close>

definition removeClient :: "channel \<Rightarrow> conn \<Rightarrow> channel" where
  "removeClient ch res =
     ch\<lparr> connections := removeAll res (connections ch),
         connectionCount := connectionCount ch - 1,
         effects := effects ch @ [Emit (Disconnect res)] \<rparr>"

definition getConnectionCount :: "channel \<Rightarrow> int" where
  "getConnectionCount ch = connectionCount ch"

definition ping :: "channel \<Rightarrow> channel" where
  "ping ch = ch\<lparr> effects := broadcast (connections ch) [CHR '':'', LF] (effects ch) \<rparr>"

definition retry :: "channel \<Rightarrow> jsvalue \<Rightarrow> channel" where
  "retry ch retryTimeout' =
     ch\<lparr> effects := broadcast (connections ch)
                        (''retry: '' @ ToString retryTimeout' @ [LF]) (effects ch) \<rparr>"

primrec close_loop :: "conn list \<Rightarrow> nat \<Rightarrow> effect list \<Rightarrow> effect list" where
  "close_loop conns 0 out = out"
| "close_loop conns (Suc i) out = close_loop conns i (out @ [End (conns ! i)])"

definition close :: "channel \<Rightarrow> channel" where
  "close ch = ch\<lparr> effects := close_loop (connections ch) (length (connections ch)) (effects ch) \<rparr>"

subsection \<open>\<open>send\<close>\<close>

text \<open>
  \<open>_.reject(history, {id: msg.id})\<close> keeps the entries whose \<open>id\<close> is not strictly
  equal to \<open>msg.id\<close>; \<open>unshift\<close> puts the entry in front and returns the new length;
  \<open>pop\<close> drops the last element. The argument \<open>clients\<close> is \<open>None\<close> when it is not
  given and an array of connections otherwise (an array is truthy, also when empty).
  The message is formatted first: when the formatter throws, \<open>send\<close> throws and nothing
  has been changed or written.
\<close>

definition send :: "channel \<Rightarrow> message \<Rightarrow> conn list option \<Rightarrow> error + channel" where
  "send ch msg clients =
     and_then (parseMessage msg (jsonEncode ch)) (\<lambda>message.
       (let ch = (case clients of
                    Some cs \<Rightarrow> ch
                  | None \<Rightarrow>
                      (let ch = (if truthy (msg_id msg)
                                 then ch\<lparr> history := filter (\<lambda>e. e_id e \<noteq> msg_id msg) (history ch) \<rparr>
                                 else ch);
                           entry = \<lparr> e_id = msg_id msg, e_msg = message \<rparr>
                       in if truthy (msg_id msg)
                          then (let ch = ch\<lparr> history := entry # history ch \<rparr>
                                in if int (length (history ch)) > historySize ch
                                   then ch\<lparr> history := butlast (history ch) \<rparr>
                                   else ch)
                          else ch));
            ch = ch\<lparr> effects := broadcast (case clients of Some cs \<Rightarrow> cs | None \<Rightarrow> connections ch)
                                     message (effects ch) \<rparr>
        in Inr (ch\<lparr> effects := effects ch @ [Emit (Message msg clients)] \<rparr>)))"

text \<open>
  The older \<open>lib/sse-channel.js\<close>: no second argument and no removal of an entry with
  the same id. Its flag \<open>autoSerialize\<close> is held in the field \<open>jsonEncode\<close>.
\<close>

definition send_lib :: "channel \<Rightarrow> message \<Rightarrow> error + channel" where
  "send_lib ch msg =
     and_then (parseMessage_lib msg (jsonEncode ch)) (\<lambda>message.
       (let entry = \<lparr> e_id = msg_id msg, e_msg = message \<rparr>;
            ch = (if truthy (msg_id msg)
                  then (let ch = ch\<lparr> history := entry # history ch \<rparr>
                        in if int (length (history ch)) > historySize ch
                           then ch\<lparr> history := butlast (history ch) \<rparr>
                           else ch)
                  else ch);
            ch = ch\<lparr> effects := broadcast (connections ch) message (effects ch) \<rparr>
        in Inr (ch\<lparr> effects := effects ch @ [Emit (Message msg None)] \<rparr>)))"

text \<open>
  The channel after a call that can throw: the state returned, or the state before the
  call when it threw (\<open>send\<close> throws before it changes anything).
\<close>

definition after :: "channel \<Rightarrow> error + channel \<Rightarrow> channel" where
  "after ch r = (case r of Inl e \<Rightarrow> ch | Inr ch' \<Rightarrow> ch')"

subsection \<open>\<open>sendMissedEvents\<close>\<close>

text \<open>
  The scan from the front of the history (the most recent entry) stops at the first entry
  whose id is \<open><= lastId\<close>; each frame passed is put in front of \<open>entries\<close>, which is
  then written to the response from its front.
\<close>

fun missed_loop :: "entry list \<Rightarrow> jsvalue \<Rightarrow> string list \<Rightarrow> string list" where
  "missed_loop [] lastId entries = entries"
| "missed_loop (h # hs) lastId entries =
     (if js_lesseq (e_id h) lastId then entries else missed_loop hs lastId (e_msg h # entries))"

definition sendMissedEvents :: "channel \<Rightarrow> conn \<Rightarrow> jsvalue \<Rightarrow> channel" where
  "sendMissedEvents ch response lastId =
     (let entries = missed_loop (history ch) lastId []
      in ch\<lparr> effects := effects ch @ map (Write response) entries \<rparr>)"

subsection \<open>\<open>addClient\<close>\<close>

text \<open>
  What \<open>addClient\<close> reads from the request and the response: the outcome of the
  cross-origin check \<open>this.cors(req, res)\<close> (a function of the \<open>access-control\<close> package,
  outside this repository, which answers a request it refuses or a preflight itself and then
  returns true), the status code it left on the response, the header \<open>last-event-id\<close> and the
  query parameters \<open>evs_preamble\<close>, \<open>evs_last_event_id\<close> and \<open>lastEventId\<close>. The
  argument \<open>callback\<close> says whether the caller passed a callback. The listeners that
  \<open>addClient\<close> registers on \<open>close\<close>, \<open>end\<close> and \<open>finish\<close> are not part of the state:
  each time one of them fires, the channel takes a \<open>removeClient\<close> step.
\<close>

record request =
  cors_handled :: bool
  statusCode :: int
  header_last_event_id :: jsvalue
  evs_preamble :: jsvalue
  evs_last_event_id :: jsvalue
  lastEventId :: jsvalue

definition preambleData :: string where
  "preambleData = replicate 2056 CHR ''-'' @ [LF]"

definition initializeConnection :: "conn \<Rightarrow> jsvalue \<Rightarrow> jsvalue \<Rightarrow> effect list \<Rightarrow> effect list" where
  "initializeConnection response retry' preamble out =
     (let out = out @ [SetTimeout response 0, SetNoDelay response True, SetKeepAlive response True,
                       WriteHead response 200
                         [(''Content-Type'', ''text/event-stream''),
                          (''Cache-Control'', ''no-cache''),
                          (''Connection'', ''keep-alive'')],
                       Write response ('':ok'' @ [LF, LF])];
          r = ToInt32 retry';
          out = (if r \<noteq> 0 then out @ [Write response (''retry: '' @ string_of_int r @ [LF])] else out)
      in if truthy preamble then out @ [Write response (CHR '':'' # preambleData)] else out)"

definition addClient :: "channel \<Rightarrow> request \<Rightarrow> conn \<Rightarrow> bool \<Rightarrow> channel" where
  "addClient ch req res callback =
     (if cors_handled req
      then (if callback
            then ch\<lparr> effects := effects ch @
                       [Callback (if statusCode req = 403 then JStr ''cors failure'' else JNull)] \<rparr>
            else ch)
      else
        (let ch = ch\<lparr> effects := initializeConnection res (retryTimeout ch) (evs_preamble req) (effects ch) \<rparr>;
             ch = ch\<lparr> connections := connections ch @ [res] \<rparr>;
             ch = ch\<lparr> connectionCount := connectionCount ch + 1 \<rparr>;
             lastEventId' = js_or (header_last_event_id req)
                              (js_or (evs_last_event_id req) (js_or (lastEventId req) (JNum 0)));
             ch = (if truthy lastEventId' then sendMissedEvents ch res lastEventId' else ch);
             ch = ch\<lparr> effects := effects ch @ [Emit (Connect res)] \<rparr>
         in if callback then ch\<lparr> effects := effects ch @ [Callback JUndefined] \<rparr> else ch))"

section \<open>Notions of the specification\<close>

text \<open>
  The data block as the specification words it: one \<open>data: <line>\n\<close> per line, and one
  more \<open>\n\<close> after the last. \<open>join_newline\<close> puts the lines of a text back together.
\<close>

definition data_lines :: "string list \<Rightarrow> string" where
  "data_lines lines = concat (map (\<lambda>line. ''data: '' @ line @ [LF]) lines) @ [LF]"

fun join_newline :: "string list \<Rightarrow> string" where
  "join_newline [] = []"
| "join_newline [l] = l"
| "join_newline (l # ls) = l @ LF # join_newline ls"

text \<open>The \<open>event:\<close>, \<open>retry:\<close> and \<open>id:\<close> lines of a structured message, in this order.\<close>

definition field_lines :: "msgobj \<Rightarrow> string" where
  "field_lines msg =
     (if truthy (m_event msg) then ''event: '' @ ToString (m_event msg) @ [LF] else []) @
     (if truthy (m_retry msg) then ''retry: '' @ ToString (m_retry msg) @ [LF] else []) @
     (if truthy (m_id msg) then ''id: '' @ ToString (m_id msg) @ [LF] else [])"

text \<open>
  The messages the current formatter can format: a string; an object whose payload,
  defaulted to \<open>''\<close>, is accepted by \<open>JSON.stringify\<close> when the flag is set, and is
  converted by \<open>String\<close> when it is not.
\<close>

fun formattable :: "message \<Rightarrow> bool \<Rightarrow> bool" where
  "formattable (MString s) flag = True"
| "formattable MNullish flag = False"
| "formattable (MObject msg) flag =
     (if flag then returns (JSON_stringify (data_or_empty (m_data msg)))
      else returns (String_payload (data_or_empty (m_data msg))))"

text \<open>
  \<open>append(id, frame)\<close> of the specification: an entry with the same id is removed first,
  the new entry is put at the most recent position, and the oldest entry is dropped if the
  buffer now exceeds the capacity.
\<close>

definition append_entry :: "int \<Rightarrow> entry list \<Rightarrow> jsvalue \<Rightarrow> string \<Rightarrow> entry list" where
  "append_entry capacity h i frame =
     (let h' = \<lparr> e_id = i, e_msg = frame \<rparr> # filter (\<lambda>e. e_id e \<noteq> i) h
      in if int (length h') > capacity then butlast h' else h')"

text \<open>An entry whose id is a number strictly greater than \<open>n\<close>.\<close>

fun is_number :: "jsvalue \<Rightarrow> bool" where
  "is_number (JNum k) = True"
| "is_number _ = False"

definition newer_than :: "rat \<Rightarrow> entry \<Rightarrow> bool" where
  "newer_than n e = (case e_id e of JNum k \<Rightarrow> n < of_int k | _ \<Rightarrow> False)"

text \<open>
  Publishing a list of messages to the whole channel, one after the other, by a caller
  that goes on after a call that threw.
\<close>

definition publish_all :: "channel \<Rightarrow> message list \<Rightarrow> channel" where
  "publish_all ch msgs = foldl (\<lambda>c m. after c (send c m None)) ch msgs"

section \<open>States and messages used in the examples\<close>

definition numbered :: "int \<Rightarrow> message" where
  "numbered n = MObject \<lparr> m_event = JUndefined, m_retry = JUndefined, m_id = JNum n,
                          m_data = Prim (JStr ''x'') \<rparr>"

definition with_payload :: "payload \<Rightarrow> message" where
  "with_payload d = MObject \<lparr> m_event = JUndefined, m_retry = JUndefined, m_id = JUndefined,
                              m_data = d \<rparr>"

definition text_payload :: "string \<Rightarrow> message" where
  "text_payload s = with_payload (Prim (JStr s))"

text \<open>An object that refers to itself: \<open>var o = {}; o.self = o\<close>.\<close>

definition circular :: payload where
  "circular = Opaque (Inr ''[object Object]'') Throws"

definition fresh_channel :: "int \<Rightarrow> channel" where
  "fresh_channel capacity = \<lparr> jsonEncode = False, historySize = capacity, retryTimeout = JNull, history = [],
                              connections = [], connectionCount = 0, effects = [] \<rparr>"

definition one_client :: channel where
  "one_client = (fresh_channel 500)\<lparr> connections := [7], connectionCount := 1 \<rparr>"

definition two_clients :: channel where
  "two_clients = (publish_all (fresh_channel 5) [numbered 1, numbered 2])
                   \<lparr> connections := [7, 8], connectionCount := 2, effects := [] \<rparr>"

definition five_published :: channel where
  "five_published =
     publish_all (fresh_channel 5) [numbered 1, numbered 2, numbered 3, numbered 4, numbered 5]"

definition refused :: request where
  "refused = \<lparr> cors_handled = True, statusCode = 403, header_last_event_id = JStr ''3'',
               evs_preamble = JUndefined, evs_last_event_id = JUndefined, lastEventId = JUndefined \<rparr>"

section \<open>The formatter: lemmas\<close>

lemma parseTextData_loop_drop:
  "i < length lines \<Longrightarrow>
   parseTextData_loop lines i (length lines) out = out @ data_lines (drop i lines)"
proof (induction "length lines - i" arbitrary: i out)
  case 0
  then show ?case by simp
next
  case (Suc k)
  show ?case
  proof (cases "i + 1 = length lines")
    case True
    then have d: "drop i lines = [lines ! i]"
      by (metis Suc.prems Cons_nth_drop_Suc Suc_eq_plus1 drop_all le_refl)
    show ?thesis
      using True Suc.prems
      by (subst parseTextData_loop.simps, subst parseTextData_loop.simps) (simp add: d data_lines_def)
  next
    case False
    with Suc.prems have lt: "i + 1 < length lines" by simp
    have k: "k = length lines - (i + 1)" using Suc.hyps(2) by simp
    have d: "drop i lines = lines ! i # drop (i + 1) lines"
      using Suc.prems by (simp add: Cons_nth_drop_Suc)
    show ?thesis
      using False Suc.prems Suc.hyps(1)[OF k lt]
      by (subst parseTextData_loop.simps) (simp add: d data_lines_def)
  qed
qed

lemma split_newline_nonempty: "split_newline s \<noteq> []"
  by (induction s) (auto split: list.splits)

lemma parseTextData_string_data_lines:
  "parseTextData_string t = data_lines (split_newline (replace_newlines t))"
  using parseTextData_loop_drop [of 0 "split_newline (replace_newlines t)" "[]"]
  by (simp add: parseTextData_string_def Let_def split_newline_nonempty)

lemma join_split_newline: "join_newline (split_newline s) = s"
proof (induction s)
  case Nil
  show ?case by simp
next
  case (Cons c s)
  then show ?case
    by (cases "split_newline s"; cases "tl (split_newline s)") (auto simp: split_newline_nonempty)
qed

lemma split_newline_no_LF: "LF \<notin> set (concat (split_newline s))"
  by (induction s) (auto split: list.splits)


lemma split_newline_single: "LF \<notin> set s \<Longrightarrow> split_newline s = [s]"
  by (induction s) auto




lemma replace_newlines_id: "CR \<notin> set s \<Longrightarrow> replace_newlines s = s"
  by (induction s rule: replace_newlines.induct) auto


lemma length_replace_newlines: "length (replace_newlines s) \<le> length s"
  by (induction s rule: replace_newlines.induct) auto

lemma parseTextData_string_one_line:
  "LF \<notin> set s \<Longrightarrow> CR \<notin> set s \<Longrightarrow> parseTextData_string s = ''data: '' @ s @ [LF, LF]"
  by (simp add: parseTextData_string_data_lines replace_newlines_id split_newline_single data_lines_def)

lemma count_data_lines:
  "LF \<notin> set (concat ls) \<Longrightarrow> count_list (data_lines ls) LF = length ls + 1"
  by (induction ls) (auto simp: data_lines_def)

subsection \<open>\<open>JSON.stringify\<close> on a string gives one line, longer than the string\<close>

lemma of_char_hexdigit:
  "d < 16 \<Longrightarrow> (of_char (hexdigit d) :: nat) = (if d < 10 then 48 + d else 87 + d)"
  by (simp add: hexdigit_def)

lemma hexdigit_not_newline:
  assumes "d < 16"
  shows "hexdigit d \<noteq> LF \<and> hexdigit d \<noteq> CR"
proof -
  have ge: "(48::nat) \<le> of_char (hexdigit d)"
    using assms by (simp add: of_char_hexdigit)
  have "hexdigit d \<noteq> LF"
  proof
    assume "hexdigit d = LF"
    then have "(of_char (hexdigit d) :: nat) = 10" by simp
    with ge show False by simp
  qed
  moreover have "hexdigit d \<noteq> CR"
  proof
    assume "hexdigit d = CR"
    then have "(of_char (hexdigit d) :: nat) = 13" by simp
    with ge show False by simp
  qed
  ultimately show ?thesis by simp
qed

lemma json_escape_char_no_newline:
  "LF \<notin> set (json_escape_char c) \<and> CR \<notin> set (json_escape_char c)"
proof -
  have "(of_char c :: nat) < 256" by simp
  then have "(of_char c :: nat) div 16 < 16" by arith
  then have hi: "hexdigit (of_char c div 16) \<noteq> LF \<and> hexdigit (of_char c div 16) \<noteq> CR"
    by (rule hexdigit_not_newline)
  have lo: "hexdigit (of_char c mod 16) \<noteq> LF \<and> hexdigit (of_char c mod 16) \<noteq> CR"
    by (rule hexdigit_not_newline) simp
  show ?thesis
    using hi lo by (auto simp: json_escape_char_def)
qed

lemma json_escape_char_length: "1 \<le> length (json_escape_char c)"
  by (simp add: json_escape_char_def)

lemma length_concat_escape: "length s \<le> length (concat (map json_escape_char s))"
proof (induction s)
  case Nil
  show ?case by simp
next
  case (Cons c s)
  with json_escape_char_length [of c] show ?case by simp
qed

lemma json_quote_no_newline: "LF \<notin> set (json_quote s) \<and> CR \<notin> set (json_quote s)"
  using json_escape_char_no_newline by (auto simp: json_quote_def)

lemma json_quote_length: "length s + 2 \<le> length (json_quote s)"
  using length_concat_escape [of s] by (simp add: json_quote_def)

lemma parseTextData_string_json_quote:
  "parseTextData_string (json_quote s) = ''data: '' @ json_quote s @ [LF, LF]"
  using json_quote_no_newline [of s] by (simp add: parseTextData_string_one_line)

lemma parseTextData_string_neq_quote:
  "parseTextData_string (json_quote s) \<noteq> parseTextData_string s"
proof
  let ?q = "json_quote s"
  let ?ls = "split_newline (replace_newlines s)"
  assume eq: "parseTextData_string ?q = parseTextData_string s"
  have q: "parseTextData_string ?q = data_lines [?q]"
    using json_quote_no_newline [of s]
    by (simp add: parseTextData_string_data_lines replace_newlines_id split_newline_single)
  have s: "parseTextData_string s = data_lines ?ls"
    by (rule parseTextData_string_data_lines)
  have "count_list (data_lines [?q]) LF = 2"
    using json_quote_no_newline [of s] count_data_lines [of "[?q]"] by simp
  moreover have "count_list (data_lines ?ls) LF = length ?ls + 1"
    by (rule count_data_lines) (rule split_newline_no_LF)
  ultimately have "length ?ls = 1"
    using eq q s by simp
  then obtain l where l: "?ls = [l]"
    by (cases ?ls) auto
  have "join_newline ?ls = replace_newlines s"
    by (rule join_split_newline)
  with l have "l = replace_newlines s" by simp
  moreover from eq q s l have "?q = l"
    by (simp add: data_lines_def)
  ultimately have "length ?q \<le> length s"
    using length_replace_newlines [of s] by simp
  with json_quote_length [of s] show False by simp
qed

subsection \<open>Calls that can throw\<close>

lemma and_then_simps:
  "and_then (Inl e) f = Inl e"
  "and_then (Inr x) f = f x"
  by (simp_all add: and_then_def)

lemma returns_simps:
  "returns (Inl e) = False"
  "returns (Inr x) = True"
  by (simp_all add: returns_def)

lemma returns_and_then_Inr: "returns (and_then r (\<lambda>x. Inr (f x))) = returns r"
  by (cases r) (simp_all add: and_then_simps returns_simps)

lemma after_simps:
  "after ch (Inl e) = ch"
  "after ch (Inr ch') = ch'"
  by (simp_all add: after_def)

subsection \<open>\<open>parseMessage\<close> on a structured message\<close>

lemma data_or_empty_string: "data_or_empty (Prim (JStr s)) = Prim (JStr s)"
  by (simp add: data_or_empty_def)

lemma parseTextData_string_arg: "parseTextData (Prim (JStr s)) = Inr (parseTextData_string s)"
  by (simp add: parseTextData_def and_then_simps)

lemma parseTextData_primitive: "parseTextData (Prim v) = Inr (parseTextData_string (ToString v))"
  by (simp add: parseTextData_def and_then_simps)

lemma parseMessage_object:
  "parseMessage (MObject msg) flag =
     and_then (if flag then and_then (JSON_stringify (data_or_empty (m_data msg))) (\<lambda>v. Inr (Prim v))
               else Inr (data_or_empty (m_data msg)))
       (\<lambda>data. and_then (parseTextData data) (\<lambda>text. Inr (field_lines msg @ text)))"
  by (simp add: field_lines_def Let_def)

lemma parseMessage_lib_object:
  "parseMessage_lib (MObject msg) autoSerialize =
     and_then (if autoSerialize \<and> \<not> isString_payload (m_data msg)
               then and_then (JSON_stringify (m_data msg)) (\<lambda>v. Inr (Prim v))
               else Inr (data_or_empty (m_data msg)))
       (\<lambda>data. and_then (parseTextData_lib data) (\<lambda>text. Inr (field_lines msg @ text)))"
  by (simp add: field_lines_def Let_def)

lemma field_lines_data: "field_lines (msg\<lparr>m_data := d\<rparr>) = field_lines msg"
  by (simp add: field_lines_def)

lemma parseMessage_jsonEncode:
  "parseMessage (MObject msg) True =
     and_then (JSON_stringify (data_or_empty (m_data msg)))
       (\<lambda>v. Inr (field_lines msg @ parseTextData_string (ToString v)))"
  by (cases "JSON_stringify (data_or_empty (m_data msg))")
     (simp_all add: parseMessage_object and_then_simps parseTextData_primitive del: parseMessage.simps)

lemma parseMessage_plain:
  "parseMessage (MObject msg) False =
     and_then (String_payload (data_or_empty (m_data msg)))
       (\<lambda>s. Inr (field_lines msg @ parseTextData_string s))"
  by (cases "String_payload (data_or_empty (m_data msg))")
     (simp_all add: parseMessage_object and_then_simps parseTextData_def del: parseMessage.simps)

lemma parseMessage_formattable: "returns (parseMessage msg flag) = formattable msg flag"
proof (cases msg)
  case (MString s)
  then show ?thesis by (simp add: parseTextData_string_arg returns_simps)
next
  case (MObject m)
  then show ?thesis
    by (cases flag)
       (simp_all add: parseMessage_jsonEncode parseMessage_plain returns_and_then_Inr
          del: parseMessage.simps)
next
  case MNullish
  then show ?thesis by (simp add: returns_simps)
qed

lemma formattable_primitive: "formattable (MObject (msg\<lparr>m_data := Prim v\<rparr>)) flag"
  by (cases "truthy v") (simp_all add: data_or_empty_def returns_simps)

section \<open>The channel: lemmas\<close>

lemma broadcast_loop_take:
  "i \<le> length conns \<Longrightarrow>
   broadcast_loop conns i packet out = out @ map (\<lambda>c. Write c packet) (rev (take i conns))"
proof (induction i arbitrary: out)
  case 0
  show ?case by simp
next
  case (Suc i)
  then have "take (Suc i) conns = take i conns @ [conns ! i]"
    by (simp add: take_Suc_conv_app_nth)
  with Suc show ?case by simp
qed

lemma broadcast_rev: "broadcast conns packet out = out @ map (\<lambda>c. Write c packet) (rev conns)"
  by (simp add: broadcast_def broadcast_loop_take)

lemma send_Some:
  "send ch msg (Some cs) =
     and_then (parseMessage msg (jsonEncode ch)) (\<lambda>frame.
       Inr (ch\<lparr> effects := effects ch @ map (\<lambda>c. Write c frame) (rev cs)
                            @ [Emit (Message msg (Some cs))] \<rparr>))"
  by (simp add: send_def Let_def broadcast_rev)

lemma send_None:
  "send ch msg None =
     and_then (parseMessage msg (jsonEncode ch)) (\<lambda>frame.
       Inr (ch\<lparr> history := (if truthy (msg_id msg)
                              then append_entry (historySize ch) (history ch) (msg_id msg) frame
                              else history ch),
                 effects := effects ch @ map (\<lambda>c. Write c frame) (rev (connections ch))
                            @ [Emit (Message msg None)] \<rparr>))"
  by (cases "parseMessage msg (jsonEncode ch)")
     (simp_all add: send_def Let_def broadcast_rev append_entry_def and_then_simps)

lemma send_throws: "parseMessage msg (jsonEncode ch) = Inl e \<Longrightarrow> send ch msg clients = Inl e"
  by (simp add: send_def and_then_simps)

lemma returns_send: "returns (send ch msg clients) = formattable msg (jsonEncode ch)"
  by (cases "parseMessage msg (jsonEncode ch)")
     (simp_all add: send_def Let_def and_then_simps returns_simps parseMessage_formattable [symmetric])

lemma after_send_None:
  "after ch (send ch msg None) =
     (case parseMessage msg (jsonEncode ch) of
        Inl e \<Rightarrow> ch
      | Inr frame \<Rightarrow>
          ch\<lparr> history := (if truthy (msg_id msg)
                           then append_entry (historySize ch) (history ch) (msg_id msg) frame
                           else history ch),
              effects := effects ch @ map (\<lambda>c. Write c frame) (rev (connections ch))
                         @ [Emit (Message msg None)] \<rparr>)"
  by (cases "parseMessage msg (jsonEncode ch)") (simp_all add: send_None and_then_simps after_simps)

lemma after_send_None_other:
  "connections (after ch (send ch msg None)) = connections ch"
  "connectionCount (after ch (send ch msg None)) = connectionCount ch"
  "historySize (after ch (send ch msg None)) = historySize ch"
  "jsonEncode (after ch (send ch msg None)) = jsonEncode ch"
  "retryTimeout (after ch (send ch msg None)) = retryTimeout ch"
  by (simp_all add: after_send_None split: sum.splits)

lemma after_send_history:
  "history (after ch (send ch msg None)) =
     (case parseMessage msg (jsonEncode ch) of
        Inl e \<Rightarrow> history ch
      | Inr frame \<Rightarrow>
          if truthy (msg_id msg)
          then append_entry (historySize ch) (history ch) (msg_id msg) frame
          else history ch)"
  by (simp add: after_send_None split: sum.splits)

text \<open>The append of the specification keeps the invariant of the buffer.\<close>

lemma append_entry_distinct:
  assumes "distinct (map e_id h)"
  shows "distinct (map e_id (append_entry capacity h i frame))"
proof -
  define e where "e = \<lparr> e_id = i, e_msg = frame \<rparr>"
  define h1 where "h1 = filter (\<lambda>e. e_id e \<noteq> i) h"
  have d1: "distinct (map e_id (e # h1))"
    using assms by (auto simp: distinct_map_filter e_def h1_def)
  have d2: "distinct (map e_id (butlast (e # h1)))"
    using distinct_butlast [OF d1] by (simp only: map_butlast)
  have "append_entry capacity h i frame =
          (if int (length (e # h1)) > capacity then butlast (e # h1) else e # h1)"
    by (simp add: append_entry_def Let_def e_def h1_def)
  with d1 d2 show ?thesis by (simp only: split: if_split) simp
qed

lemma append_entry_length:
  assumes "int (length h) \<le> capacity"
  shows "int (length (append_entry capacity h i frame)) \<le> capacity"
proof -
  define h1 where "h1 = filter (\<lambda>e. e_id e \<noteq> i) h"
  have "length h1 \<le> length h"
    unfolding h1_def by (rule length_filter_le)
  then have l1: "int (length h1) \<le> capacity"
    using assms by linarith
  have "append_entry capacity h i frame =
          (if int (length h1) + 1 > capacity then butlast (\<lparr> e_id = i, e_msg = frame \<rparr> # h1)
           else \<lparr> e_id = i, e_msg = frame \<rparr> # h1)"
    by (simp add: append_entry_def Let_def h1_def)
  with l1 show ?thesis by (simp split: if_splits)
qed

lemma append_entry_full:
  assumes "int (length h) \<le> capacity"
  shows "append_entry capacity h i frame =
           (if int (length (filter (\<lambda>e. e_id e \<noteq> i) h)) = capacity
            then butlast (\<lparr> e_id = i, e_msg = frame \<rparr> # filter (\<lambda>e. e_id e \<noteq> i) h)
            else \<lparr> e_id = i, e_msg = frame \<rparr> # filter (\<lambda>e. e_id e \<noteq> i) h)"
proof -
  define h1 where "h1 = filter (\<lambda>e. e_id e \<noteq> i) h"
  have "length h1 \<le> length h"
    unfolding h1_def by (rule length_filter_le)
  then have l1: "int (length h1) \<le> capacity"
    using assms by linarith
  have "append_entry capacity h i frame =
          (if int (length h1) + 1 > capacity then butlast (\<lparr> e_id = i, e_msg = frame \<rparr> # h1)
           else \<lparr> e_id = i, e_msg = frame \<rparr> # h1)"
    by (simp add: append_entry_def Let_def h1_def)
  also have "\<dots> = (if int (length h1) = capacity then butlast (\<lparr> e_id = i, e_msg = frame \<rparr> # h1)
                     else \<lparr> e_id = i, e_msg = frame \<rparr> # h1)"
  proof -
    have "(int (length h1) + 1 > capacity) = (int (length h1) = capacity)"
      using l1 by linarith
    then show ?thesis by (simp only:)
  qed
  finally show ?thesis
    unfolding h1_def .
qed

lemma removeClient_absent:
  "res \<notin> set (connections ch) \<Longrightarrow> connections (removeClient ch res) = connections ch"
  by (simp add: removeClient_def)

lemma removeClient_gone: "res \<notin> set (connections (removeClient ch res))"
  by (simp add: removeClient_def)

subsection \<open>The comparison and the scan of the history\<close>

lemma missed_loop_takeWhile:
  "missed_loop h lastId acc =
     rev (map e_msg (takeWhile (\<lambda>e. \<not> js_lesseq (e_id e) lastId) h)) @ acc"
  by (induction h arbitrary: acc) auto

lemma missed_loop_filter_general:
  assumes "sorted_wrt (\<lambda>a b. js_lesseq (e_id b) (e_id a)) h"
    and "\<And>x y. x \<in> set h \<Longrightarrow> y \<in> set h \<Longrightarrow> js_lesseq (e_id y) (e_id x) \<Longrightarrow>
           js_lesseq (e_id x) lastId \<Longrightarrow> js_lesseq (e_id y) lastId"
  shows "missed_loop h lastId acc =
           rev (map e_msg (filter (\<lambda>e. \<not> js_lesseq (e_id e) lastId) h)) @ acc"
  using assms
proof (induction h arbitrary: acc)
  case Nil
  show ?case by simp
next
  case (Cons x xs)
  have sorted: "sorted_wrt (\<lambda>a b. js_lesseq (e_id b) (e_id a)) xs"
    using Cons.prems(1) by simp
  have trans: "js_lesseq (e_id v) lastId"
    if "u \<in> set xs" "v \<in> set xs" "js_lesseq (e_id v) (e_id u)" "js_lesseq (e_id u) lastId" for u v
    using that Cons.prems(2) [of u v] by simp
  show ?case
  proof (cases "js_lesseq (e_id x) lastId")
    case True
    have "js_lesseq (e_id y) lastId" if "y \<in> set xs" for y
    proof -
      from that Cons.prems(1) have "js_lesseq (e_id y) (e_id x)" by auto
      with that True Cons.prems(2) [of x y] show ?thesis by simp
    qed
    then have "filter (\<lambda>e. \<not> js_lesseq (e_id e) lastId) xs = []"
      by (simp add: filter_empty_conv)
    with True show ?thesis by simp
  next
    case False
    with Cons.IH [OF sorted trans] show ?thesis by simp
  qed
qed

text \<open>
  \<open><=\<close> is transitive among values that are not strings (all comparisons are then
  numeric) and among strings.
\<close>

lemma number_lesseq_trans:
  "number_less b a = Some False \<Longrightarrow> number_less c b = Some False \<Longrightarrow>
   number_less c a = Some False"
  by (cases a; cases b; cases c) auto

lemma string_lesseq_trans:
  "\<not> string_less b a \<Longrightarrow> \<not> string_less c b \<Longrightarrow> \<not> string_less c a"
proof (induction a arbitrary: b c)
  case Nil
  then show ?case by (cases b; cases c) auto
next
  case (Cons x a)
  show ?case
  proof (cases b)
    case Nil
    with Cons.prems show ?thesis by simp
  next
    case b: (Cons y b')
    show ?thesis
    proof (cases c)
      case Nil
      with Cons.prems b show ?thesis by simp
    next
      case c: (Cons z c')
      from Cons.prems b c Cons.IH [of b' c'] show ?thesis
        by (auto split: if_splits)
    qed
  qed
qed

lemma js_lesseq_number:
  "\<not> (isString a \<and> isString b) \<Longrightarrow>
   js_lesseq a b = (number_less (ToNumber b) (ToNumber a) = Some False)"
  by (cases a; cases b) (simp_all add: js_lesseq_def)

lemma js_lesseq_string: "js_lesseq (JStr s) (JStr t) = (\<not> string_less t s)"
  by (simp add: js_lesseq_def)

lemma js_lesseq_trans_numbers:
  assumes "\<not> isString x" and "\<not> isString y"
    and "js_lesseq y x" and "js_lesseq x l"
  shows "js_lesseq y l"
  using assms number_lesseq_trans [of "ToNumber x" "ToNumber y" "ToNumber l"]
  by (simp add: js_lesseq_number)

lemma js_lesseq_trans_strings:
  assumes "isString x" and "isString y" and "isString l"
    and "js_lesseq y x" and "js_lesseq x l"
  shows "js_lesseq y l"
proof -
  from assms(1-3) obtain s t u where "x = JStr s" "y = JStr t" "l = JStr u"
    by (cases x; cases y; cases l) auto
  with assms(4,5) string_lesseq_trans [of s t u] show ?thesis
    by (simp add: js_lesseq_string)
qed

lemma not_js_lesseq: "(\<not> js_lesseq a b) = (js_less b a \<or> compare_less b a = None)"
  by (cases "compare_less b a") (auto simp: js_lesseq_def js_less_def)

lemma js_lesseq_JNum: "ToNumber l = Finite n \<Longrightarrow> js_lesseq (JNum k) l = (of_int k \<le> n)"
  by (auto simp: js_lesseq_number)

lemma js_lesseq_NaN: "ToNumber l = NaN \<Longrightarrow> \<not> isString a \<Longrightarrow> \<not> js_lesseq a l"
  by (simp add: js_lesseq_number)

lemma newer_than_JNum: "e_id e = JNum k \<Longrightarrow> newer_than n e = (n < of_int k)"
  by (simp add: newer_than_def)

lemma missed_loop_uniform:
  assumes "sorted_wrt (\<lambda>a b. js_lesseq (e_id b) (e_id a)) h"
    and "list_all (\<lambda>e. \<not> isString (e_id e)) h
         \<or> list_all (\<lambda>e. isString (e_id e)) h \<and> isString lastId"
  shows "missed_loop h lastId acc =
           rev (map e_msg (filter (\<lambda>e. \<not> js_lesseq (e_id e) lastId) h)) @ acc"
proof (rule missed_loop_filter_general [OF assms(1)])
  fix x y
  assume xy: "x \<in> set h" "y \<in> set h"
    and le: "js_lesseq (e_id y) (e_id x)" "js_lesseq (e_id x) lastId"
  from assms(2) show "js_lesseq (e_id y) lastId"
  proof
    assume "list_all (\<lambda>e. \<not> isString (e_id e)) h"
    with xy have "\<not> isString (e_id x)" "\<not> isString (e_id y)"
      by (simp_all add: list_all_iff)
    then show ?thesis using le by (rule js_lesseq_trans_numbers)
  next
    assume s: "list_all (\<lambda>e. isString (e_id e)) h \<and> isString lastId"
    with xy have "isString (e_id x)" "isString (e_id y)" "isString lastId"
      by (simp_all add: list_all_iff)
    then show ?thesis using le by (rule js_lesseq_trans_strings)
  qed
qed

lemma filter_newer_than:
  assumes "list_all (\<lambda>e. is_number (e_id e)) h" and "ToNumber lastId = Finite n"
  shows "filter (\<lambda>e. \<not> js_lesseq (e_id e) lastId) h = filter (newer_than n) h"
proof (rule filter_cong [OF refl])
  fix e
  assume "e \<in> set h"
  with assms(1) obtain k where k: "e_id e = JNum k"
    by (cases "e_id e") (auto simp: list_all_iff)
  with assms(2) show "(\<not> js_lesseq (e_id e) lastId) = newer_than n e"
    by (auto simp: js_lesseq_JNum newer_than_JNum)
qed

lemma filter_not_a_number:
  assumes "list_all (\<lambda>e. \<not> isString (e_id e)) h" and "ToNumber lastId = NaN"
  shows "filter (\<lambda>e. \<not> js_lesseq (e_id e) lastId) h = h"
  using assms by (simp add: list_all_iff js_lesseq_NaN)

section \<open>The claims\<close>

subsection \<open>C1: removing a connection and the live count\<close>

text \<open>
  Claim C1 says that \<open>removeClient\<close> on a connection that is not (or no longer) in the
  registry is a no-op, that the live count is decremented only when a connection was
  really removed, and that removing the same connection twice changes the count by exactly
  one. The registry behaves so (\<open>removeClient_absent\<close>), but the count does not:
  \<open>removeClient\<close> decrements \<open>connectionCount\<close> on every call and emits a
  \<open>disconnect\<close> event on every call. With one registered connection, the second removal
  leaves an empty registry and the count \<open>- 1\<close>, which \<open>getConnectionCount\<close> reports as the
  number of active connections.
\<close>

theorem removeClient_decrements_on_every_call:
  "connectionCount (removeClient ch res) = connectionCount ch - 1 \<and>
   connectionCount (removeClient (removeClient ch res) res) = connectionCount ch - 2 \<and>
   effects (removeClient (removeClient ch res) res)
     = effects ch @ [Emit (Disconnect res), Emit (Disconnect res)] \<and>
   connections (removeClient one_client 7) = [] \<and>
   getConnectionCount (removeClient one_client 7) = 0 \<and>
   connections (removeClient (removeClient one_client 7) 7) = [] \<and>
   getConnectionCount (removeClient (removeClient one_client 7) 7) = - 1"
  by (simp add: removeClient_def getConnectionCount_def one_client_def fresh_channel_def)

subsection \<open>C2: the history invariant\<close>

text \<open>
  Claim C2: every append of an identified message to the history preserves the buffer
  invariant. If the ids of the history are pairwise different and the history holds at most
  \<open>historySize\<close> entries, then after \<open>send\<close> of a message with a truthy id to the whole
  channel the ids are again pairwise different and the size is again at most
  \<open>historySize\<close>. \<open>send\<close> returns exactly when the message can be formatted, and the
  history it returns is the new entry in front of the old entries with another id, without
  its last (oldest) entry exactly when the old entries with another id already filled the
  buffer; when the formatter throws nothing is appended.
\<close>

theorem send_preserves_history_invariant:
  assumes "distinct (map e_id (history ch))"
    and "int (length (history ch)) \<le> historySize ch"
    and "truthy (msg_id msg)"
  shows "distinct (map e_id (history (after ch (send ch msg None)))) \<and>
         int (length (history (after ch (send ch msg None))))
           \<le> historySize (after ch (send ch msg None)) \<and>
         send ch msg None =
           and_then (parseMessage msg (jsonEncode ch)) (\<lambda>frame.
             Inr (ch\<lparr> history :=
                        (if int (length (filter (\<lambda>e. e_id e \<noteq> msg_id msg) (history ch))) = historySize ch
                         then butlast (\<lparr> e_id = msg_id msg, e_msg = frame \<rparr>
                                         # filter (\<lambda>e. e_id e \<noteq> msg_id msg) (history ch))
                         else \<lparr> e_id = msg_id msg, e_msg = frame \<rparr>
                                # filter (\<lambda>e. e_id e \<noteq> msg_id msg) (history ch)),
                       effects := effects ch @ map (\<lambda>c. Write c frame) (rev (connections ch))
                                  @ [Emit (Message msg None)] \<rparr>)) \<and>
         returns (send ch msg None) = formattable msg (jsonEncode ch)"
proof -
  have f1: "distinct (map e_id (history (after ch (send ch msg None))))"
    using assms(1) by (simp add: after_send_history append_entry_distinct split: sum.splits)
  have f2: "int (length (history (after ch (send ch msg None))))
                   \<le> historySize (after ch (send ch msg None))"
    using assms(2) by (simp add: after_send_history after_send_None_other append_entry_length split: sum.splits)
  have f3: "send ch msg None =
           and_then (parseMessage msg (jsonEncode ch)) (\<lambda>frame.
             Inr (ch\<lparr> history :=
                        (if int (length (filter (\<lambda>e. e_id e \<noteq> msg_id msg) (history ch))) = historySize ch
                         then butlast (\<lparr> e_id = msg_id msg, e_msg = frame \<rparr>
                                         # filter (\<lambda>e. e_id e \<noteq> msg_id msg) (history ch))
                         else \<lparr> e_id = msg_id msg, e_msg = frame \<rparr>
                                # filter (\<lambda>e. e_id e \<noteq> msg_id msg) (history ch)),
                       effects := effects ch @ map (\<lambda>c. Write c frame) (rev (connections ch))
                                  @ [Emit (Message msg None)] \<rparr>))"
    using assms(3) by (simp only: send_None if_True append_entry_full [OF assms(2)])
  show ?thesis
    by (intro conjI) (fact f1, fact f2, fact f3, rule returns_send)
qed

text \<open>
  A full buffer \<open>[2, 1]\<close> of capacity 2: publishing id 3 evicts id 1.
\<close>

theorem send_preserves_history_invariant_witness:
  "distinct (map e_id (history (publish_all (fresh_channel 2) [numbered 1, numbered 2]))) \<and>
   int (length (history (publish_all (fresh_channel 2) [numbered 1, numbered 2])))
     \<le> historySize (publish_all (fresh_channel 2) [numbered 1, numbered 2]) \<and>
   truthy (msg_id (numbered 3)) \<and>
   returns (send (publish_all (fresh_channel 2) [numbered 1, numbered 2]) (numbered 3) None) \<and>
   distinct (map e_id (history (after (publish_all (fresh_channel 2) [numbered 1, numbered 2])
      (send (publish_all (fresh_channel 2) [numbered 1, numbered 2]) (numbered 3) None)))) \<and>
   map e_id (history (publish_all (fresh_channel 2) [numbered 1, numbered 2])) = [JNum 2, JNum 1] \<and>
   map e_id (history (after (publish_all (fresh_channel 2) [numbered 1, numbered 2])
      (send (publish_all (fresh_channel 2) [numbered 1, numbered 2]) (numbered 3) None)))
     = [JNum 3, JNum 2]"
proof -
  let ?ch = "publish_all (fresh_channel 2) [numbered 1, numbered 2]"
  have a: "map e_id (history ?ch) = [JNum 2, JNum 1]"
    by code_simp
  have s: "historySize ?ch = 2"
    by (simp add: publish_all_def after_send_None_other fresh_channel_def)
  have d: "distinct (map e_id (history ?ch))"
    by (simp add: a)
  have l: "int (length (history ?ch)) \<le> historySize ?ch"
    using arg_cong [OF a, of length] by (simp add: s)
  have t: "truthy (msg_id (numbered 3))"
    by (simp add: numbered_def)
  have f: "formattable (numbered 3) (jsonEncode ?ch)"
    by (simp add: numbered_def data_or_empty_def returns_simps)
  have b: "map e_id (history (after ?ch (send ?ch (numbered 3) None))) = [JNum 3, JNum 2]"
    by code_simp
  note th = send_preserves_history_invariant [OF d l t]
  have dd: "distinct (map e_id (history (after ?ch (send ?ch (numbered 3) None))))"
    by (rule th [THEN conjunct1])
  have r: "returns (send ?ch (numbered 3) None)"
    using th [THEN conjunct2, THEN conjunct2, THEN conjunct2] f by (simp only:)
  show ?thesis
    by (intro conjI) (fact d, fact l, fact t, fact r, fact dd, fact a, fact b)
qed

text \<open>
  The older \<open>lib/sse-channel.js\<close> has no removal step: its \<open>send\<close> keeps the capacity
  bound, and a republished id is then twice in the history.
\<close>

lemma send_lib_capacity:
  assumes "send_lib ch msg = Inr ch'"
    and "int (length (history ch)) \<le> historySize ch"
  shows "int (length (history ch')) \<le> historySize ch'"
  using assms by (auto simp: send_lib_def and_then_def Let_def split: sum.splits if_splits)

lemma send_lib_keeps_duplicate:
  "map_sum id (\<lambda>c. map e_id (history c))
     (send_lib ((fresh_channel 5)\<lparr> history := [\<lparr> e_id = JNum 1, e_msg = [] \<rparr>] \<rparr>) (numbered 1))
   = Inr [JNum 1, JNum 1]"
  by code_simp

subsection \<open>C3: replay after a resume id\<close>

text \<open>
  The history after the ids 1 to 5 were published with capacity 5, and some conversions
  of strings to numbers.
\<close>

lemma history_five_published:
  "history five_published =
     [\<lparr> e_id = JNum 5, e_msg = ''id: 5'' @ [LF] @ ''data: x'' @ [LF, LF] \<rparr>,
      \<lparr> e_id = JNum 4, e_msg = ''id: 4'' @ [LF] @ ''data: x'' @ [LF, LF] \<rparr>,
      \<lparr> e_id = JNum 3, e_msg = ''id: 3'' @ [LF] @ ''data: x'' @ [LF, LF] \<rparr>,
      \<lparr> e_id = JNum 2, e_msg = ''id: 2'' @ [LF] @ ''data: x'' @ [LF, LF] \<rparr>,
      \<lparr> e_id = JNum 1, e_msg = ''id: 1'' @ [LF] @ ''data: x'' @ [LF, LF] \<rparr>]"
  by code_simp

lemma StringToNumber_examples:
  "StringToNumber ''abc'' = NaN"
  "StringToNumber ''3'' = Finite 3"
  "StringToNumber ''3.5'' = Finite (7 / 2)"
  "StringToNumber ''0x4'' = Finite 4"
  "StringToNumber ''1e3'' = Finite 1000"
  "StringToNumber ''10'' = Finite 10"
  "StringToNumber ''5'' = Finite 5"
  by code_simp+

text \<open>
  Claim C3 says that the replay returns exactly the frames of the entries whose id is
  strictly greater than the resume id, and no others. The scan stops at the first entry
  whose id is \<open><=\<close> the resume id, and a comparison with a resume id that is no number is
  never true: after the ids 1 to 5, a client whose \<open>Last-Event-ID\<close> header is \<open>abc\<close> is
  sent all five frames, although no id is strictly greater than \<open>abc\<close>.
\<close>

theorem sendMissedEvents_not_a_number_counterexample:
  "map e_id (history five_published) = [JNum 5, JNum 4, JNum 3, JNum 2, JNum 1] \<and>
   sorted_wrt (\<lambda>a b. js_lesseq (e_id b) (e_id a)) (history five_published) \<and>
   filter (\<lambda>e. js_less (JStr ''abc'') (e_id e)) (history five_published) = [] \<and>
   effects (sendMissedEvents five_published 9 (JStr ''abc'')) =
     effects five_published @
     [Write 9 (''id: 1'' @ [LF] @ ''data: x'' @ [LF, LF]),
      Write 9 (''id: 2'' @ [LF] @ ''data: x'' @ [LF, LF]),
      Write 9 (''id: 3'' @ [LF] @ ''data: x'' @ [LF, LF]),
      Write 9 (''id: 4'' @ [LF] @ ''data: x'' @ [LF, LF]),
      Write 9 (''id: 5'' @ [LF] @ ''data: x'' @ [LF, LF])]"
  by (simp add: sendMissedEvents_def history_five_published js_lesseq_def js_less_def
        StringToNumber_examples)

text \<open>
  Claim C3, amended: for every history stored most-recent-first with non-decreasing ids,
  the ids being all other than strings (numbers), or all strings when the resume id is a
  string too, \<open>sendMissedEvents\<close> writes to the response, oldest first, exactly the stored
  frames of the entries whose id is not \<open><=\<close> the resume id, and changes nothing else.
  These are the entries whose id is strictly greater than the resume id or cannot be
  compared with it: for ids that are numbers and a resume id that converts to the number
  \<open>n\<close> (the number itself, or the text of a header), the entries with an id greater than
  \<open>n\<close>; for a resume id that converts to no number, every entry.
\<close>

theorem sendMissedEvents_replays_newer_oldest_first:
  assumes "sorted_wrt (\<lambda>a b. js_lesseq (e_id b) (e_id a)) (history ch)"
    and "list_all (\<lambda>e. \<not> isString (e_id e)) (history ch)
         \<or> list_all (\<lambda>e. isString (e_id e)) (history ch) \<and> isString lastId"
  shows "sendMissedEvents ch response lastId =
           ch\<lparr> effects := effects ch @
                  map (Write response)
                    (rev (map e_msg (filter (\<lambda>e. \<not> js_lesseq (e_id e) lastId) (history ch)))) \<rparr> \<and>
         (\<not> js_lesseq a b) = (js_less b a \<or> compare_less b a = None) \<and>
         (list_all (\<lambda>e. is_number (e_id e)) (history ch) \<and> ToNumber lastId = Finite n \<longrightarrow>
            filter (\<lambda>e. \<not> js_lesseq (e_id e) lastId) (history ch) = filter (newer_than n) (history ch)) \<and>
         (list_all (\<lambda>e. \<not> isString (e_id e)) (history ch) \<and> ToNumber lastId = NaN \<longrightarrow>
            filter (\<lambda>e. \<not> js_lesseq (e_id e) lastId) (history ch) = history ch)"
proof (intro conjI impI)
  show "sendMissedEvents ch response lastId =
          ch\<lparr> effects := effects ch @
                 map (Write response)
                   (rev (map e_msg (filter (\<lambda>e. \<not> js_lesseq (e_id e) lastId) (history ch)))) \<rparr>"
    using missed_loop_uniform [OF assms, of "[]"] by (simp add: sendMissedEvents_def)
  show "(\<not> js_lesseq a b) = (js_less b a \<or> compare_less b a = None)"
    by (rule not_js_lesseq)
  show "filter (\<lambda>e. \<not> js_lesseq (e_id e) lastId) (history ch) = filter (newer_than n) (history ch)"
    if "list_all (\<lambda>e. is_number (e_id e)) (history ch) \<and> ToNumber lastId = Finite n"
    using that by (simp add: filter_newer_than)
  show "filter (\<lambda>e. \<not> js_lesseq (e_id e) lastId) (history ch) = history ch"
    if "list_all (\<lambda>e. \<not> isString (e_id e)) (history ch) \<and> ToNumber lastId = NaN"
    using that by (simp add: filter_not_a_number)
qed

text \<open>
  After publishing the ids 1 to 5 with capacity 5, a client resuming with the last id 3
  is sent the frame of id 4 and then the frame of id 5, and no other.
\<close>

theorem sendMissedEvents_replays_newer_oldest_first_witness:
  "sorted_wrt (\<lambda>a b. js_lesseq (e_id b) (e_id a)) (history five_published) \<and>
   list_all (\<lambda>e. \<not> isString (e_id e)) (history five_published) \<and>
   effects (sendMissedEvents five_published 9 (JNum 3))
   = effects five_published @
     [Write 9 (''id: 4'' @ [LF] @ ''data: x'' @ [LF, LF]),
      Write 9 (''id: 5'' @ [LF] @ ''data: x'' @ [LF, LF])]"
proof -
  note h = history_five_published
  have a: "sorted_wrt (\<lambda>a b. js_lesseq (e_id b) (e_id a)) (history five_published)"
    by (simp add: h js_lesseq_def)
  have b: "list_all (\<lambda>e. \<not> isString (e_id e)) (history five_published)"
    by (simp add: h)
  have c: "list_all (\<lambda>e. \<not> isString (e_id e)) (history five_published)
           \<or> list_all (\<lambda>e. isString (e_id e)) (history five_published) \<and> isString (JNum 3)"
    using b by simp
  have "sendMissedEvents five_published 9 (JNum 3) =
          five_published\<lparr> effects := effects five_published @
            map (Write 9)
              (rev (map e_msg (filter (\<lambda>e. \<not> js_lesseq (e_id e) (JNum 3)) (history five_published)))) \<rparr>"
    by (rule sendMissedEvents_replays_newer_oldest_first [OF a c, THEN conjunct1])
  then have "effects (sendMissedEvents five_published 9 (JNum 3)) =
          effects five_published @
            map (Write 9)
              (rev (map e_msg (filter (\<lambda>e. \<not> js_lesseq (e_id e) (JNum 3)) (history five_published))))"
    by simp
  also have "map (Write 9)
              (rev (map e_msg (filter (\<lambda>e. \<not> js_lesseq (e_id e) (JNum 3)) (history five_published)))) =
     [Write 9 (''id: 4'' @ [LF] @ ''data: x'' @ [LF, LF]),
      Write 9 (''id: 5'' @ [LF] @ ''data: x'' @ [LF, LF])]"
    by (simp add: h js_lesseq_def)
  finally show ?thesis
    using a b by simp
qed

text \<open>
  The same for every capacity of at least 5 and every five messages that can be formatted
  and carry the ids 1 to 5; and with the resume id as the text of a header.
\<close>

lemma publish_history_Cons:
  assumes "parseMessage m (jsonEncode ch) = Inr frame"
    and "truthy (msg_id m)"
    and "list_all (\<lambda>e. e_id e \<noteq> msg_id m) (history ch)"
    and "int (length (history ch)) < historySize ch"
  shows "history (after ch (send ch m None)) = \<lparr> e_id = msg_id m, e_msg = frame \<rparr> # history ch"
proof -
  have "filter (\<lambda>e. e_id e \<noteq> msg_id m) (history ch) = history ch"
    using assms(3) by (simp add: list_all_iff)
  with assms(1,2,4) show ?thesis
    by (simp add: after_send_history append_entry_def Let_def)
qed

lemma resume_after_five_publishes:
  assumes "history ch = []" and "5 \<le> historySize ch"
    and "m_id m1 = JNum 1" and "m_id m2 = JNum 2" and "m_id m3 = JNum 3"
    and "m_id m4 = JNum 4" and "m_id m5 = JNum 5"
    and "parseMessage (MObject m1) (jsonEncode ch) = Inr f1"
    and "parseMessage (MObject m2) (jsonEncode ch) = Inr f2"
    and "parseMessage (MObject m3) (jsonEncode ch) = Inr f3"
    and "parseMessage (MObject m4) (jsonEncode ch) = Inr f4"
    and "parseMessage (MObject m5) (jsonEncode ch) = Inr f5"
  shows "missed_loop
           (history (publish_all ch [MObject m1, MObject m2, MObject m3, MObject m4, MObject m5]))
           (JNum 3) []
         = [f4, f5]"
proof -
  let ?c1 = "after ch (send ch (MObject m1) None)"
  let ?c2 = "after ?c1 (send ?c1 (MObject m2) None)"
  let ?c3 = "after ?c2 (send ?c2 (MObject m3) None)"
  let ?c4 = "after ?c3 (send ?c3 (MObject m4) None)"
  let ?c5 = "after ?c4 (send ?c4 (MObject m5) None)"
  have h1: "history ?c1 = [\<lparr> e_id = JNum 1, e_msg = f1 \<rparr>]"
    using assms by (subst publish_history_Cons [where frame = f1]) simp_all
  have h2: "history ?c2 = \<lparr> e_id = JNum 2, e_msg = f2 \<rparr> # history ?c1"
    using assms by (subst publish_history_Cons [where frame = f2]) (simp_all add: h1 after_send_None_other)
  have h3: "history ?c3 = \<lparr> e_id = JNum 3, e_msg = f3 \<rparr> # history ?c2"
    using assms by (subst publish_history_Cons [where frame = f3]) (simp_all add: h1 h2 after_send_None_other)
  have h4: "history ?c4 = \<lparr> e_id = JNum 4, e_msg = f4 \<rparr> # history ?c3"
    using assms by (subst publish_history_Cons [where frame = f4]) (simp_all add: h1 h2 h3 after_send_None_other)
  have h5: "history ?c5 = \<lparr> e_id = JNum 5, e_msg = f5 \<rparr> # history ?c4"
    using assms by (subst publish_history_Cons [where frame = f5]) (simp_all add: h1 h2 h3 h4 after_send_None_other)
  show ?thesis
    by (simp add: publish_all_def h1 h2 h3 h4 h5 js_lesseq_def)
qed

lemma resume_with_header_strings:
  "missed_loop (history five_published) (JStr ''3'') []
     = [''id: 4'' @ [LF] @ ''data: x'' @ [LF, LF], ''id: 5'' @ [LF] @ ''data: x'' @ [LF, LF]] \<and>
   missed_loop (history five_published) (JStr ''3.5'') []
     = [''id: 4'' @ [LF] @ ''data: x'' @ [LF, LF], ''id: 5'' @ [LF] @ ''data: x'' @ [LF, LF]] \<and>
   missed_loop (history five_published) (JStr ''0x4'') []
     = [''id: 5'' @ [LF] @ ''data: x'' @ [LF, LF]]"
  by (simp add: history_five_published js_lesseq_def StringToNumber_examples)

text \<open>
  Ids that are strings are compared with each other as strings and with a resume id that
  is a number as numbers: the ids \<open>10\<close> then \<open>5\<close> do not decrease as strings, and a
  resume id 7 stops the scan at \<open>5\<close> although \<open>10\<close> is greater than 7.
\<close>

lemma replay_string_ids_number_resume:
  "sorted_wrt (\<lambda>a b. js_lesseq (e_id b) (e_id a))
     [\<lparr> e_id = JStr ''5'', e_msg = ''b'' \<rparr>, \<lparr> e_id = JStr ''10'', e_msg = ''a'' \<rparr>] \<and>
   missed_loop [\<lparr> e_id = JStr ''5'', e_msg = ''b'' \<rparr>, \<lparr> e_id = JStr ''10'', e_msg = ''a'' \<rparr>] (JNum 7) [] = [] \<and>
   js_less (JNum 7) (JStr ''10'')"
  by (simp add: js_lesseq_def js_less_def StringToNumber_examples)

subsection \<open>C4: the data block\<close>


subsection \<open>C5: the JSON-encode option and string payloads\<close>

text \<open>
  Claim C5 says that with the JSON-encode option enabled a payload that is already a
  string is used as it is. The current formatter does otherwise: with \<open>jsonEncode\<close> set, the
  payload \<open>a\<close> is sent as the JSON string literal, in its quotes.
\<close>

theorem parseMessage_jsonEncode_string_counterexample:
  "parseMessage (text_payload ''a'') True
     = Inr (''data: '' @ [CHR 0x22, CHR ''a'', CHR 0x22] @ [LF, LF]) \<and>
   parseMessage (text_payload ''a'') True \<noteq> Inr (''data: a'' @ [LF, LF]) \<and>
   parseMessage (text_payload ''a'') False = Inr (''data: a'' @ [LF, LF])"
  by (simp add: text_payload_def with_payload_def parseMessage_jsonEncode parseMessage_plain
        field_lines_def data_or_empty_def and_then_simps
        json_quote_def json_escape_char_def parseTextData_string_data_lines data_lines_def
        del: parseMessage.simps)

text \<open>
  Claim C5, amended: with \<open>jsonEncode\<close> enabled the current formatter serialises the
  payload (an absent or falsy payload first replaced by the empty string) to JSON text
  whether or not it is a string, and throws when \<open>JSON.stringify\<close> does. A string payload
  \<open>s\<close> is emitted as the single line \<open>data: \<close> followed by its JSON string literal,
  which is never the frame of \<open>s\<close> used as it is; with the option disabled the payload is
  used as it is. Only the older \<open>lib/sse-channel.js\<close> formatter leaves a string payload as
  it is whatever its flag \<open>autoSerialize\<close>.
\<close>

theorem parseMessage_jsonEncode_serialises_strings:
  "parseMessage (MObject msg) True
     = and_then (JSON_stringify (data_or_empty (m_data msg)))
         (\<lambda>v. Inr (field_lines msg @ parseTextData_string (ToString v))) \<and>
   parseMessage (MObject (msg\<lparr>m_data := Prim (JStr s)\<rparr>)) True
     = Inr (field_lines msg @ ''data: '' @ json_quote s @ [LF, LF]) \<and>
   parseMessage (MObject (msg\<lparr>m_data := Prim (JStr s)\<rparr>)) False
     = Inr (field_lines msg @ parseTextData_string s) \<and>
   parseMessage (MObject (msg\<lparr>m_data := Prim (JStr s)\<rparr>)) True
     \<noteq> parseMessage (MObject (msg\<lparr>m_data := Prim (JStr s)\<rparr>)) False \<and>
   parseMessage_lib (MObject (msg\<lparr>m_data := Prim (JStr s)\<rparr>)) autoSerialize
     = Inr (field_lines msg @ parseTextData_string s)"
  using parseTextData_string_neq_quote [of s]
  by (simp add: parseMessage_jsonEncode parseMessage_plain parseMessage_lib_object field_lines_data
        data_or_empty_string and_then_simps parseTextData_string_json_quote
        del: parseMessage.simps parseMessage_lib.simps)

subsection \<open>C6: a message without a truthy id\<close>

text \<open>
  Claim C6 says that a message whose id is falsy is still broadcast to every connection
  and that publish always completes. \<open>send\<close> formats the message before anything else and
  catches nothing: with \<open>jsonEncode\<close> set, a message without id whose payload is an object
  that refers to itself makes \<open>JSON.stringify\<close> throw, and \<open>send\<close> with it, so that nothing is
  written to the registered connection; so does the message \<open>null\<close>.
\<close>

theorem send_unserialisable_payload_counterexample:
  "\<not> truthy (msg_id (with_payload circular)) \<and>
   send ((fresh_channel 5)\<lparr> jsonEncode := True, connections := [7] \<rparr>) (with_payload circular) None
     = Inl TypeError \<and>
   send ((fresh_channel 5)\<lparr> connections := [7] \<rparr>) MNullish None = Inl TypeError"
  by (simp add: send_def with_payload_def circular_def fresh_channel_def data_or_empty_def
        parseMessage_jsonEncode and_then_simps del: parseMessage.simps(3))

text \<open>
  Claim C6, amended: publishing to the whole channel a message whose id is falsy (absent,
  zero or empty, and a plain string message, which has no id) never changes the history,
  so that every later replay is the same. \<open>send\<close> completes exactly when the message can be
  formatted, which every string and every object with a primitive payload can; it then
  changes nothing but the effects: the formatted frame is written once to every registered
  connection before the \<open>message\<close> event is emitted. When the formatter throws (a payload
  that \<open>JSON.stringify\<close> rejects under \<open>jsonEncode\<close>, a payload that cannot be converted to
  a string, the message \<open>null\<close> or \<open>undefined\<close>), \<open>send\<close> throws the same exception
  and nothing is stored, written or emitted.
\<close>

theorem send_falsy_id_is_broadcast_not_stored:
  assumes "\<not> truthy (msg_id msg)"
  shows "send ch msg None =
           and_then (parseMessage msg (jsonEncode ch)) (\<lambda>frame.
             Inr (ch\<lparr> effects := effects ch @ map (\<lambda>c. Write c frame) (rev (connections ch)) @
                                    [Emit (Message msg None)] \<rparr>)) \<and>
         returns (send ch msg None) = formattable msg (jsonEncode ch) \<and>
         formattable (MString s) flag \<and>
         formattable (MObject (m\<lparr>m_data := Prim v\<rparr>)) flag \<and>
         history (after ch (send ch msg None)) = history ch \<and>
         connections (after ch (send ch msg None)) = connections ch \<and>
         missed_loop (history (after ch (send ch msg None))) lastId [] = missed_loop (history ch) lastId []"
proof -
  have h: "history (after ch (send ch msg None)) = history ch"
    using assms by (simp add: after_send_history split: sum.splits)
  have e: "send ch msg None =
           and_then (parseMessage msg (jsonEncode ch)) (\<lambda>frame.
             Inr (ch\<lparr> effects := effects ch @ map (\<lambda>c. Write c frame) (rev (connections ch)) @
                                    [Emit (Message msg None)] \<rparr>))"
    using assms by (simp add: send_None)
  show ?thesis
    by (intro conjI)
       (fact e, rule returns_send, simp, rule formattable_primitive, fact h,
        rule after_send_None_other, simp only: h)
qed

theorem send_falsy_id_is_broadcast_not_stored_witness:
  "\<not> truthy (msg_id (numbered 0)) \<and>
   map e_id (history two_clients) = [JNum 2, JNum 1] \<and>
   history (after two_clients (send two_clients (numbered 0) None)) = history two_clients \<and>
   map_sum id effects (send two_clients (numbered 0) None) =
     Inr [Write 8 (''data: x'' @ [LF, LF]), Write 7 (''data: x'' @ [LF, LF]),
          Emit (Message (numbered 0) None)]"
proof -
  have f: "\<not> truthy (msg_id (numbered 0))"
    by (simp add: numbered_def)
  have p: "parseMessage (numbered 0) False = Inr (''data: x'' @ [LF, LF])"
    by code_simp
  have h: "map e_id (history two_clients) = [JNum 2, JNum 1]"
    by code_simp
  have c: "connections two_clients = [7, 8]" "effects two_clients = []" "jsonEncode two_clients = False"
    by (simp_all add: two_clients_def publish_all_def after_send_None_other fresh_channel_def)
  note th = send_falsy_id_is_broadcast_not_stored [OF f, of two_clients]
  have e: "map_sum id effects (send two_clients (numbered 0) None) =
     Inr [Write 8 (''data: x'' @ [LF, LF]), Write 7 (''data: x'' @ [LF, LF]),
          Emit (Message (numbered 0) None)]"
    by (simp add: th [THEN conjunct1] c p and_then_simps)
  have u: "history (after two_clients (send two_clients (numbered 0) None)) = history two_clients"
    by (rule th [THEN conjunct2, THEN conjunct2, THEN conjunct2, THEN conjunct2, THEN conjunct1])
  show ?thesis
    by (intro conjI) (fact f, fact h, fact u, fact e)
qed

lemma falsy_ids:
  "\<not> truthy JUndefined \<and> \<not> truthy JNull \<and> \<not> truthy (JNum 0) \<and> \<not> truthy (JStr []) \<and>
   \<not> truthy (msg_id (MString s))"
  by simp

subsection \<open>C7: the order of a broadcast\<close>

text \<open>
  Claim C7 says that \<open>broadcast\<close> writes the frame to every registered connection in
  registry order. The loop counts down from the end of the array: with the registry
  \<open>[1, 2]\<close> the frame is written to connection 2 first.
\<close>

theorem broadcast_registry_order_counterexample:
  "broadcast [1, 2] ''x'' [] = [Write 2 ''x'', Write 1 ''x''] \<and>
   broadcast [1, 2] ''x'' [] \<noteq> map (\<lambda>c. Write c ''x'') [1, 2]"
  by (simp add: broadcast_def)

text \<open>
  Claim C7, amended: for every frame, \<open>broadcast\<close> writes the frame exactly once to every
  connection of the array it is given, in the reverse of the array's order (the connection
  added last is written first).
\<close>

theorem broadcast_writes_in_reverse_order:
  "broadcast conns packet out = out @ map (\<lambda>c. Write c packet) (rev conns)"
  by (simp add: broadcast_def broadcast_loop_take)

subsection \<open>C8: publishing to an explicit set of connections\<close>

text \<open>
  Claim C8: \<open>send\<close> with an explicit array of connections writes the frame to the
  connections of that array and to no other, leaves the history, the registry and the
  count as they are, and the frame is the one a publish to the whole channel writes:
  \<open>parseMessage\<close> of the message under the channel's \<open>jsonEncode\<close>. It returns exactly
  when the message can be formatted; when the formatter throws nothing is written.
\<close>

theorem send_to_clients_bypasses_history:
  "send ch msg (Some cs) =
     and_then (parseMessage msg (jsonEncode ch)) (\<lambda>frame.
       Inr (ch\<lparr> effects := effects ch @ map (\<lambda>c. Write c frame) (rev cs) @
                              [Emit (Message msg (Some cs))] \<rparr>)) \<and>
   returns (send ch msg (Some cs)) = formattable msg (jsonEncode ch) \<and>
   history (after ch (send ch msg (Some cs))) = history ch \<and>
   connections (after ch (send ch msg (Some cs))) = connections ch \<and>
   connectionCount (after ch (send ch msg (Some cs))) = connectionCount ch \<and>
   map_sum id effects (send ch msg None) =
     and_then (parseMessage msg (jsonEncode ch)) (\<lambda>frame.
       Inr (effects ch @ map (\<lambda>c. Write c frame) (rev (connections ch)) @
              [Emit (Message msg None)]))"
proof (intro conjI)
  show "send ch msg (Some cs) =
     and_then (parseMessage msg (jsonEncode ch)) (\<lambda>frame.
       Inr (ch\<lparr> effects := effects ch @ map (\<lambda>c. Write c frame) (rev cs) @
                              [Emit (Message msg (Some cs))] \<rparr>))"
    by (rule send_Some)
  show "returns (send ch msg (Some cs)) = formattable msg (jsonEncode ch)"
    by (rule returns_send)
  show "history (after ch (send ch msg (Some cs))) = history ch"
    by (cases "parseMessage msg (jsonEncode ch)") (simp_all add: send_Some and_then_simps after_simps)
  show "connections (after ch (send ch msg (Some cs))) = connections ch"
    by (cases "parseMessage msg (jsonEncode ch)") (simp_all add: send_Some and_then_simps after_simps)
  show "connectionCount (after ch (send ch msg (Some cs))) = connectionCount ch"
    by (cases "parseMessage msg (jsonEncode ch)") (simp_all add: send_Some and_then_simps after_simps)
  show "map_sum id effects (send ch msg None) =
     and_then (parseMessage msg (jsonEncode ch)) (\<lambda>frame.
       Inr (effects ch @ map (\<lambda>c. Write c frame) (rev (connections ch)) @
              [Emit (Message msg None)]))"
    by (cases "parseMessage msg (jsonEncode ch)") (simp_all add: send_None and_then_simps)
qed

subsection \<open>C9: a connection refused by the cross-origin check\<close>

text \<open>
  Claim C9 says that a connect attempt rejected by the access-control check returns a
  rejection outcome to the caller. \<open>addClient\<close> returns nothing; the outcome goes to the
  callback, under the guard \<open>if (callback)\<close>: a caller that passed no callback is told
  nothing, and the refused call leaves no trace at all.
\<close>

theorem addClient_without_callback_counterexample:
  "cors_handled refused \<and> statusCode refused = 403 \<and>
   addClient one_client refused 8 False = one_client \<and>
   effects (addClient one_client refused 8 False) = []"
  by (simp add: addClient_def refused_def one_client_def fresh_channel_def)

text \<open>
  Claim C9, amended: when the cross-origin check has refused the request (it answered the
  request itself, with status 403), \<open>addClient\<close> hands the outcome \<open>cors failure\<close> to
  the caller's callback when one was passed, tells the caller nothing otherwise, and does
  nothing else: no socket option is set and nothing is written to the response, the
  registry, the count and the history are unchanged, no replay is sent and no \<open>connect\<close>
  event is emitted.
\<close>

theorem addClient_refused_does_nothing_else:
  assumes "cors_handled req" and "statusCode req = 403"
  shows "addClient ch req res callback =
           ch\<lparr> effects := effects ch @ (if callback then [Callback (JStr ''cors failure'')] else []) \<rparr> \<and>
         connections (addClient ch req res callback) = connections ch \<and>
         connectionCount (addClient ch req res callback) = connectionCount ch \<and>
         history (addClient ch req res callback) = history ch"
  using assms by (simp add: addClient_def)

theorem addClient_refused_does_nothing_else_witness:
  "cors_handled refused \<and> statusCode refused = 403 \<and>
   addClient one_client refused 8 True = one_client\<lparr> effects := [Callback (JStr ''cors failure'')] \<rparr> \<and>
   connections (addClient one_client refused 8 True) = [7] \<and>
   connectionCount (addClient one_client refused 8 True) = 1"
proof -
  have a: "cors_handled refused" and b: "statusCode refused = 403"
    by (simp_all add: refused_def)
  have c: "effects one_client = []" "connections one_client = [7]" "connectionCount one_client = 1"
    by (simp_all add: one_client_def fresh_channel_def)
  show ?thesis
    using addClient_refused_does_nothing_else [OF a b, of one_client 8 True] a b
    by (simp add: c)
qed

text \<open>A request that the check answered without refusing it (a preflight) is not added either.\<close>

lemma addClient_handled:
  "cors_handled req \<Longrightarrow>
   addClient ch req res callback =
     ch\<lparr> effects := effects ch @
            (if callback then [Callback (if statusCode req = 403 then JStr ''cors failure'' else JNull)]
             else []) \<rparr>"
  by (simp add: addClient_def)

subsection \<open>C10: the two formatters on a plain string\<close>

text \<open>
  Claim C10: on a message that is a plain string, \<open>parseMessage\<close> of
  \<open>lib/sse-channel.js\<close> and \<open>parseMessage\<close> of the current version return the same
  text, whatever the two flags: the data block of the string.
\<close>

theorem parseMessage_versions_agree_on_strings:
  "parseMessage_lib (MString s) autoSerialize = parseMessage (MString s) jsonEncode' \<and>
   parseMessage (MString s) jsonEncode' = Inr (parseTextData_string s)"
  by (simp add: parseTextData_string_arg)

end
